theory Spec2Isabelle
  imports Complex_Main "HOL-Library.Sublist"
begin

section \<open>Python floats, as far as the program compares them\<close>

text \<open>
  The program only compares floats and tests their truth value. A float is modelled by
  its exact value, or one of the three special values. The decimal strings the program
  converts have at most two fractional digits; they are modelled by their exact decimal
  value. Rounding to the nearest double is monotone and leaves the integers 100, 200 and
  600 fixed, so every range test of the program has the outcome it has on the exact
  value.
\<close>

datatype pyfloat = Finite rat | PosInf | NegInf | NaN

text \<open>Python's \<open>a <= b\<close>: false as soon as one side is NaN.\<close>

fun fle :: "pyfloat \<Rightarrow> pyfloat \<Rightarrow> bool" where
  "fle NaN b = False"
| "fle (Finite a) (Finite b) = (a \<le> b)"
| "fle (Finite a) PosInf = True"
| "fle (Finite a) NegInf = False"
| "fle (Finite a) NaN = False"
| "fle PosInf (Finite b) = False"
| "fle PosInf PosInf = True"
| "fle PosInf NegInf = False"
| "fle PosInf NaN = False"
| "fle NegInf (Finite b) = True"
| "fle NegInf PosInf = True"
| "fle NegInf NegInf = True"
| "fle NegInf NaN = False"

text \<open>Python's \<open>a < b\<close>.\<close>

fun flt :: "pyfloat \<Rightarrow> pyfloat \<Rightarrow> bool" where
  "flt NaN b = False"
| "flt (Finite a) (Finite b) = (a < b)"
| "flt (Finite a) PosInf = True"
| "flt (Finite a) NegInf = False"
| "flt (Finite a) NaN = False"
| "flt PosInf b = False"
| "flt NegInf (Finite b) = True"
| "flt NegInf PosInf = True"
| "flt NegInf NegInf = False"
| "flt NegInf NaN = False"

text \<open>Python's \<open>a > b\<close>.\<close>

definition fgt :: "pyfloat \<Rightarrow> pyfloat \<Rightarrow> bool" where
  "fgt a b = flt b a"

text \<open>The truth value of a float: only zero is false.\<close>

definition truthy :: "pyfloat \<Rightarrow> bool" where
  "truthy p = (p \<noteq> Finite 0)"

section \<open>The two price patterns\<close>

text \<open>
  Page text is a string of 8-bit characters (the code points below 256). There \<open>\d\<close>
  matches exactly the ten ASCII digits and \<open>\s\<close> the code points 9 to 13, 28 to 32,
  133 and 160.

  A piece of a regular expression is modelled by the list of all the ways it can match a
  prefix of the input, in the order in which the backtracking engine tries them; each way
  is the text matched and the text left.
\<close>

type_synonym matcher = "string \<Rightarrow> (string \<times> string) list"

definition is_digit :: "char \<Rightarrow> bool" where
  "is_digit c = (48 \<le> (of_char c :: nat) \<and> (of_char c :: nat) \<le> 57)"

definition is_space :: "char \<Rightarrow> bool" where
  "is_space c = (let n = (of_char c :: nat)
     in (9 \<le> n \<and> n \<le> 13) \<or> (28 \<le> n \<and> n \<le> 32) \<or> n = 133 \<or> n = 160)"

fun cls :: "(char \<Rightarrow> bool) \<Rightarrow> matcher" where
  "cls P [] = []"
| "cls P (c # cs) = (if P c then [([c], cs)] else [])"

definition lit :: "char \<Rightarrow> matcher" where
  "lit a = cls (\<lambda>c. c = a)"

text \<open>Concatenation: every way of the first piece, each followed by every way of the second.\<close>

definition then_re :: "matcher \<Rightarrow> matcher \<Rightarrow> matcher" where
  "then_re p q s = concat (map (\<lambda>(m1, r1). map (\<lambda>(m2, r2). (m1 @ m2, r2)) (q r1)) (p s))"

text \<open>Greedy \<open>?\<close>: with the piece first, without it second.\<close>

definition opt_re :: "matcher \<Rightarrow> matcher" where
  "opt_re p s = p s @ [([], s)]"

text \<open>Greedy \<open>*\<close> over a character class: the longest run first, the empty one last.\<close>

fun star_cls :: "(char \<Rightarrow> bool) \<Rightarrow> matcher" where
  "star_cls P [] = [([], [])]"
| "star_cls P (c # cs) =
     (if P c then map (\<lambda>(m, r). (c # m, r)) (star_cls P cs) else []) @ [([], c # cs)]"

fun lits :: "string \<Rightarrow> matcher" where
  "lits [] = (\<lambda>s. [([], s)])"
| "lits (a # as) = then_re (lit a) (lits as)"

text \<open>\<open>\d{3}(?:\.\d{2})?\<close>, the contents of group 1 in both patterns.\<close>

definition price_token :: matcher where
  "price_token =
     then_re (then_re (cls is_digit) (then_re (cls is_digit) (cls is_digit)))
             (opt_re (then_re (lit CHR ''.'') (then_re (cls is_digit) (cls is_digit))))"

text \<open>
  A pattern with one group: the ways it matches, each as the text of group 1 and the
  text left after the whole match.
\<close>

text \<open>\<open>\$(\d{3}(?:\.\d{2})?)\<close>\<close>

definition dollar_pattern :: matcher where
  "dollar_pattern s = concat (map (\<lambda>(m, r). price_token r) (lit CHR ''$'' s))"

text \<open>\<open>(\d{3}(?:\.\d{2})?)\s*USD\<close>\<close>

definition usd_pattern :: matcher where
  "usd_pattern s =
     concat (map (\<lambda>(g, r). map (\<lambda>(m, r'). (g, r')) (then_re (star_cls is_space) (lits ''USD'') r))
                 (price_token s))"

definition patterns :: "matcher list" where
  "patterns = [dollar_pattern, usd_pattern]"

text \<open>A match that starts at the head of the input: the engine's first way, if any.\<close>

definition match_at :: "matcher \<Rightarrow> string \<Rightarrow> string option" where
  "match_at p s = (case p s of [] \<Rightarrow> None | (g, r) # _ \<Rightarrow> Some g)"

text \<open>\<open>re.search\<close>: scan the start positions from left to right; group 1 of the first match.\<close>

fun re_search :: "matcher \<Rightarrow> string \<Rightarrow> string option" where
  "re_search p [] = match_at p []"
| "re_search p (c # cs) =
     (case match_at p (c # cs) of Some g \<Rightarrow> Some g | None \<Rightarrow> re_search p cs)"

text \<open>
  \<open>float(match.group(1))\<close> on the two shapes group 1 can have, digits and
  digits.digits; any other string is a ValueError here (\<open>None\<close>), a branch that the
  groups of the two patterns never reach (lemma \<open>price_token_parses\<close>).
\<close>

definition digits_val :: "string \<Rightarrow> nat" where
  "digits_val ds = foldl (\<lambda>n c. 10 * n + ((of_char c :: nat) - 48)) 0 ds"

definition py_float :: "string \<Rightarrow> pyfloat option" where
  "py_float s =
     (let ip = takeWhile is_digit s; rest = dropWhile is_digit s
      in if ip = [] then None
         else (case rest of
                 [] \<Rightarrow> Some (Finite (of_nat (digits_val ip)))
               | c # fp \<Rightarrow>
                   if c = CHR ''.'' \<and> fp \<noteq> [] \<and> list_all is_digit fp
                   then Some (Finite (of_nat (digits_val ip)
                                      + of_nat (digits_val fp) / of_nat (10 ^ length fp)))
                   else None))"

section \<open>extract_price\<close>

text \<open>
  What \<open>requests.get\<close> gives for a URL at a time: an exception (time-out, connection
  error), or a response with its status code and the plain text that
  \<open>BeautifulSoup(...).get_text()\<close> extracts from its body. Whether a channel id is
  known to \<open>bot.get_channel\<close> is part of the same outside world.
\<close>

datatype http_result = Request_failed | Response int string

record world =
  fetch :: "nat \<Rightarrow> string \<Rightarrow> http_result"
  get_channel :: "int \<Rightarrow> bool"

text \<open>\<open>200 <= price <= 600\<close>\<close>

definition plausible :: "pyfloat \<Rightarrow> bool" where
  "plausible price = (fle (Finite 200) price \<and> fle price (Finite 600))"

text \<open>
  The loop \<open>for pattern in patterns\<close>: a pattern with no match, or whose first match is
  out of range, leaves the loop running with the next pattern; a ValueError ends the
  function through its \<open>except\<close> clause.
\<close>

fun try_patterns :: "matcher list \<Rightarrow> string \<Rightarrow> pyfloat option" where
  "try_patterns [] text = None"
| "try_patterns (p # ps) text =
     (case re_search p text of
        None \<Rightarrow> try_patterns ps text
      | Some g \<Rightarrow>
          (case py_float g of
             None \<Rightarrow> None
           | Some price \<Rightarrow> if plausible price then Some price else try_patterns ps text))"

definition extract_price :: "world \<Rightarrow> nat \<Rightarrow> string \<Rightarrow> string \<Rightarrow> pyfloat option" where
  "extract_price w t url retailer =
     (case fetch w t url of
        Request_failed \<Rightarrow> None
      | Response status_code text \<Rightarrow>
          if status_code \<noteq> 200 then None else try_patterns patterns text)"

section \<open>The retailers and one sweep\<close>

text \<open>
  \<open>self.retailers\<close>: a dictionary in insertion order. An entry has \<open>base_url\<close> or
  \<open>base_urls\<close>; a key an entry lacks is \<open>None\<close> here and a KeyError when read.
\<close>

record retailer_data =
  key :: string
  name :: string
  base_url :: "string option"
  base_urls :: "(string \<times> string) list option"
  colors :: "string list"

definition retailers :: "retailer_data list" where
  "retailers =
     [\<lparr>key = ''amazon'', name = ''Amazon'',
       base_url = Some ''https://www.amazon.com/dp/B0DJCX5KQG'',
       base_urls = None,
       colors = [''silver'', ''black'', ''gold'']\<rparr>,
      \<lparr>key = ''target'', name = ''Target'',
       base_url = Some ''https://www.target.com/p/oura-ring-4/-/A-93747936'',
       base_urls = None,
       colors = [''black'']\<rparr>,
      \<lparr>key = ''oura'', name = ''Oura Official'',
       base_url = None,
       base_urls = Some
         [(''silver'', ''https://ouraring.com/store/rings/oura-ring-4/silver''),
          (''black'', ''https://ouraring.com/store/rings/oura-ring-4/stealth''),
          (''gold'', ''https://ouraring.com/store/rings/oura-ring-4/gold''),
          (''rose_gold'', ''https://ouraring.com/store/rings/oura-ring-4/rose-gold'')],
       colors = [''silver'', ''black'', ''gold'', ''rose_gold'']\<rparr>]"

record observation =
  timestamp :: nat
  retailer :: string
  color :: string
  price :: pyfloat
  url :: string

datatype error = OSError | KeyError

text \<open>
  "Determine URL": \<open>base_urls.get(color)\<close> for the entry \<open>oura\<close> when it has
  \<open>base_urls\<close>, \<open>retailer_data['base_url']\<close> otherwise.
\<close>

definition target_url :: "retailer_data \<Rightarrow> string \<Rightarrow> error + string option" where
  "target_url rd c =
     (case (if key rd = ''oura'' then base_urls rd else None) of
        Some m \<Rightarrow> Inr (map_of m c)
      | None \<Rightarrow> (case base_url rd of None \<Rightarrow> Inl KeyError | Some u \<Rightarrow> Inr (Some u)))"

text \<open>
  The two nested loops of \<open>check_all_prices\<close> with their three \<open>continue\<close>s, over the
  rest of the loop body \<open>body\<close>, which is run on the retailer, the colour and the URL of
  every target the loops reach.
\<close>

fun for_colors ::
  "(retailer_data \<Rightarrow> string \<Rightarrow> string \<Rightarrow> 'a \<Rightarrow> 'a) \<Rightarrow> retailer_data \<Rightarrow> string list \<Rightarrow> 'a \<Rightarrow> error + 'a"
where
  "for_colors body rd [] acc = Inr acc"
| "for_colors body rd (c # cs) acc =
     (if c \<notin> set (colors rd) then for_colors body rd cs acc
      else (case target_url rd c of
              Inl e \<Rightarrow> Inl e
            | Inr None \<Rightarrow> for_colors body rd cs acc
            | Inr (Some u) \<Rightarrow>
                if u = [] then for_colors body rd cs acc
                else for_colors body rd cs (body rd c u acc)))"

fun for_retailers ::
  "(retailer_data \<Rightarrow> string \<Rightarrow> string \<Rightarrow> 'a \<Rightarrow> 'a) \<Rightarrow> retailer_data list \<Rightarrow> string list \<Rightarrow> 'a \<Rightarrow> error + 'a"
where
  "for_retailers body [] tracked acc = Inr acc"
| "for_retailers body (rd # rds) tracked acc =
     (case for_colors body rd tracked acc of
        Inl e \<Rightarrow> Inl e
      | Inr acc' \<Rightarrow> for_retailers body rds tracked acc')"

text \<open>
  The rest of the loop body: fetch the price, append a result when the price is true,
  sleep two seconds. The state of the loops is the list \<open>results\<close> and the time in
  seconds; a fetch takes no time in the model.
\<close>

definition visit ::
  "world \<Rightarrow> retailer_data \<Rightarrow> string \<Rightarrow> string \<Rightarrow> observation list \<times> nat \<Rightarrow> observation list \<times> nat"
where
  "visit w rd c u = (\<lambda>(results, t).
     ((case extract_price w t u (name rd) of
         None \<Rightarrow> results
       | Some p \<Rightarrow>
           if truthy p
           then results @ [\<lparr>timestamp = t, retailer = name rd, color = c, price = p, url = u\<rparr>]
           else results),
      t + 2))"

definition check_all_prices ::
  "world \<Rightarrow> string list \<Rightarrow> nat \<Rightarrow> error + (observation list \<times> nat)" where
  "check_all_prices w tracked t = for_retailers (visit w) retailers tracked ([], t)"

text \<open>
  The targets of a sweep: the (retailer, colour, URL) triples the same loops reach, in the
  order they reach them.
\<close>

definition collect ::
  "retailer_data \<Rightarrow> string \<Rightarrow> string \<Rightarrow> (retailer_data \<times> string \<times> string) list
     \<Rightarrow> (retailer_data \<times> string \<times> string) list" where
  "collect rd c u acc = acc @ [(rd, c, u)]"

definition resolve_targets :: "string list \<Rightarrow> error + (retailer_data \<times> string \<times> string) list" where
  "resolve_targets tracked = for_retailers collect retailers tracked []"

section \<open>OuraBotConfig\<close>

text \<open>The dictionary \<open>config.data\<close>, with the five keys the program reads and writes.\<close>

record config =
  target_price :: pyfloat
  check_interval :: int
  tracked_colors :: "string list"
  tracking_enabled :: bool
  alert_channel_id :: "int option"

definition default_config :: config where
  "default_config =
     \<lparr>target_price = Finite 299, check_interval = 60,
      tracked_colors = [''silver'', ''black'', ''gold''],
      tracking_enabled = False, alert_channel_id = None\<rparr>"

text \<open>The (key, value) pairs the program passes to \<open>config.set\<close>.\<close>

datatype setting =
    Target_price pyfloat
  | Check_interval int
  | Tracked_colors "string list"
  | Tracking_enabled bool
  | Alert_channel_id int

fun assign :: "setting \<Rightarrow> config \<Rightarrow> config" where
  "assign (Target_price p) d = d\<lparr>target_price := p\<rparr>"
| "assign (Check_interval n) d = d\<lparr>check_interval := n\<rparr>"
| "assign (Tracked_colors cs) d = d\<lparr>tracked_colors := cs\<rparr>"
| "assign (Tracking_enabled b) d = d\<lparr>tracking_enabled := b\<rparr>"
| "assign (Alert_channel_id c) d = d\<lparr>alert_channel_id := Some c\<rparr>"

text \<open>What the bot sends to a channel, by kind, with the data each message shows.\<close>

datatype message =
    Already_running
  | Tracking_started int pyfloat "string list" int
  | Not_running
  | Tracking_stopped
  | Invalid_price
  | Target_price_updated pyfloat
  | Checking_prices
  | No_prices_fetched
  | Current_prices "(string \<times> observation list) list" observation
  | Invalid_colors "string list"
  | No_colors
  | Colors_updated "string list"
  | Invalid_interval
  | Interval_updated int
  | Status_report bool pyfloat int "string list" "bool option"
  | No_history
  | Recent_history "observation list"
  | Price_alert observation pyfloat
  | Everyone_ping

text \<open>
  The state of the process and of its configuration file: \<open>config.data\<close>, the contents
  of \<open>bot_config.json\<close> (\<open>None\<close> when the file does not exist), whether each coming
  \<open>open(config_file, 'w')\<close> will succeed (it succeeds once the list is used up),
  \<open>tracker.price_history\<close>, whether \<open>price_check_loop\<close> is running and with which
  interval, every message sent with its channel, and the time in seconds.
\<close>

record bot =
  data :: config
  config_file :: "config option"
  writes :: "bool list"
  price_history :: "observation list"
  loop_running :: bool
  loop_minutes :: int
  sent :: "(int \<times> message) list"
  clock :: nat

datatype outcome = Done | Raised error

text \<open>Run the rest of a handler unless an exception is on its way out.\<close>

fun and_then :: "outcome \<times> bot \<Rightarrow> (bot \<Rightarrow> outcome \<times> bot) \<Rightarrow> outcome \<times> bot" where
  "and_then (Done, s) f = f s"
| "and_then (Raised e, s) f = (Raised e, s)"

text \<open>
  \<open>save_config\<close>: a failing \<open>open\<close> raises and leaves the file as it was; otherwise the
  file holds a copy of \<open>config.data\<close>.
\<close>

definition save_config :: "bot \<Rightarrow> outcome \<times> bot" where
  "save_config s =
     (case writes s of
        [] \<Rightarrow> (Done, s\<lparr>config_file := Some (data s)\<rparr>)
      | ok # oks \<Rightarrow>
          if ok then (Done, s\<lparr>config_file := Some (data s), writes := oks\<rparr>)
          else (Raised OSError, s\<lparr>writes := oks\<rparr>))"

text \<open>\<open>config.set\<close>: assign in memory first, then save.\<close>

definition config_set :: "setting \<Rightarrow> bot \<Rightarrow> outcome \<times> bot" where
  "config_set kv s = save_config (s\<lparr>data := assign kv (data s)\<rparr>)"

text \<open>\<open>load_config\<close>: the file's contents, or the defaults, saved at once.\<close>

definition load_config :: "bot \<Rightarrow> outcome \<times> bot" where
  "load_config s =
     (case config_file s of
        Some d \<Rightarrow> (Done, s\<lparr>data := d\<rparr>)
      | None \<Rightarrow> save_config (s\<lparr>data := default_config\<rparr>))"

section \<open>The background loop and the commands\<close>

definition send :: "int \<Rightarrow> message \<Rightarrow> bot \<Rightarrow> bot" where
  "send ch m s = s\<lparr>sent := sent s @ [(ch, m)]\<rparr>"

text \<open>
  \<open>before_price_check\<close>, and what \<open>start\<close> and \<open>restart\<close> of the library's loop do to
  the state kept here: \<open>start\<close> marks the loop running and runs the hook, \<open>restart\<close>
  starts a running loop again and does nothing to one that is not running. When the loop
  body runs is the library's business and is an event of its own below.
\<close>

definition before_price_check :: "bot \<Rightarrow> bot" where
  "before_price_check s = s\<lparr>loop_minutes := check_interval (data s)\<rparr>"

definition loop_start :: "bot \<Rightarrow> bot" where
  "loop_start s = before_price_check (s\<lparr>loop_running := True\<rparr>)"

definition loop_restart :: "bot \<Rightarrow> bot" where
  "loop_restart s = (if loop_running s then loop_start s else s)"

definition on_ready :: "bot \<Rightarrow> outcome \<times> bot" where
  "on_ready s =
     (if tracking_enabled (data s)
      then (if \<not> loop_running s then (Done, loop_start s) else (Done, s))
      else (Done, s))"

definition start_tracking :: "int \<Rightarrow> bot \<Rightarrow> outcome \<times> bot" where
  "start_tracking ch s =
     (if tracking_enabled (data s) then (Done, send ch Already_running s)
      else and_then (config_set (Tracking_enabled True) s) (\<lambda>s1.
           and_then (config_set (Alert_channel_id ch) s1) (\<lambda>s2.
             let s3 = (if \<not> loop_running s2 then loop_start s2 else s2)
             in (Done, send ch (Tracking_started (check_interval (data s3))
                                  (target_price (data s3)) (tracked_colors (data s3)) ch) s3))))"

definition stop_tracking :: "int \<Rightarrow> bot \<Rightarrow> outcome \<times> bot" where
  "stop_tracking ch s =
     (if \<not> tracking_enabled (data s) then (Done, send ch Not_running s)
      else and_then (config_set (Tracking_enabled False) s) (\<lambda>s1.
             (Done, send ch Tracking_stopped s1)))"

definition set_price :: "int \<Rightarrow> pyfloat \<Rightarrow> bot \<Rightarrow> outcome \<times> bot" where
  "set_price ch p s =
     (if flt p (Finite 100) \<or> fgt p (Finite 600) then (Done, send ch Invalid_price s)
      else and_then (config_set (Target_price p) s) (\<lambda>s1.
             (Done, send ch (Target_price_updated p) s1)))"

text \<open>"Group by retailer": a dictionary in insertion order, each retailer with its results.\<close>

fun group_add :: "observation \<Rightarrow> (string \<times> observation list) list \<Rightarrow> (string \<times> observation list) list"
where
  "group_add r [] = [(retailer r, [r])]"
| "group_add r ((k, rs) # g) =
     (if k = retailer r then (k, rs @ [r]) # g else (k, rs) # group_add r g)"

definition by_retailer :: "observation list \<Rightarrow> (string \<times> observation list) list" where
  "by_retailer results = foldl (\<lambda>g r. group_add r g) [] results"

text \<open>\<open>min(results, key=...)\<close> on a list with first element \<open>r\<close>: the first smallest.\<close>

definition lowest :: "observation \<Rightarrow> observation list \<Rightarrow> observation" where
  "lowest r rs = foldl (\<lambda>best x. if flt (price x) (price best) then x else best) r rs"

definition check_now :: "world \<Rightarrow> int \<Rightarrow> bot \<Rightarrow> outcome \<times> bot" where
  "check_now w ch s =
     (let s1 = send ch Checking_prices s
      in case check_all_prices w (tracked_colors (data s1)) (clock s1) of
           Inl e \<Rightarrow> (Raised e, s1)
         | Inr (results, t) \<Rightarrow>
             (case results of
                [] \<Rightarrow> (Done, send ch No_prices_fetched (s1\<lparr>clock := t\<rparr>))
              | r # rs \<Rightarrow>
                  (Done, send ch (Current_prices (by_retailer results) (lowest r rs))
                           (s1\<lparr>clock := t\<rparr>))))"

definition valid_colors :: "string list" where
  "valid_colors = [''silver'', ''black'', ''gold'', ''rose_gold'', ''stealth'']"

text \<open>\<open>str.lower\<close> on 8-bit characters: A to Z, and the accented capitals 192 to 222 but 215.\<close>

definition lower_char :: "char \<Rightarrow> char" where
  "lower_char c =
     (let n = (of_char c :: nat)
      in if (65 \<le> n \<and> n \<le> 90) \<or> (192 \<le> n \<and> n \<le> 222 \<and> n \<noteq> 215) then char_of (n + 32) else c)"

definition lower :: "string \<Rightarrow> string" where
  "lower s = map lower_char s"

definition set_colors :: "int \<Rightarrow> string list \<Rightarrow> bot \<Rightarrow> outcome \<times> bot" where
  "set_colors ch args s =
     (let cs = map lower args;
          invalid = filter (\<lambda>c. c \<notin> set valid_colors) cs
      in if invalid \<noteq> [] then (Done, send ch (Invalid_colors invalid) s)
         else if cs = [] then (Done, send ch No_colors s)
         else and_then (config_set (Tracked_colors cs) s) (\<lambda>s1.
                (Done, send ch (Colors_updated cs) s1)))"

definition set_interval :: "int \<Rightarrow> int \<Rightarrow> bot \<Rightarrow> outcome \<times> bot" where
  "set_interval ch minutes s =
     (if minutes < 10 \<or> minutes > 1440 then (Done, send ch Invalid_interval s)
      else and_then (config_set (Check_interval minutes) s) (\<lambda>s1.
             let s2 = (if tracking_enabled (data s1) then loop_restart s1 else s1)
             in (Done, send ch (Interval_updated minutes) s2)))"

definition show_status :: "world \<Rightarrow> int \<Rightarrow> bot \<Rightarrow> outcome \<times> bot" where
  "show_status w ch s =
     (Done, send ch (Status_report (tracking_enabled (data s)) (target_price (data s))
                       (check_interval (data s)) (tracked_colors (data s))
                       (case alert_channel_id (data s) of
                          None \<Rightarrow> None
                        | Some c \<Rightarrow> if c = 0 then None else Some (get_channel w c))) s)"

text \<open>\<open>tracker.price_history[-10:]\<close>\<close>

definition show_history :: "int \<Rightarrow> bot \<Rightarrow> outcome \<times> bot" where
  "show_history ch s =
     (if price_history s = [] then (Done, send ch No_history s)
      else (Done, send ch (Recent_history
                             (drop (length (price_history s) - 10) (price_history s))) s))"

text \<open>\<open>deals = [r for r in results if r['price'] <= target_price]\<close>\<close>

definition deals :: "observation list \<Rightarrow> pyfloat \<Rightarrow> observation list" where
  "deals results target = filter (\<lambda>r. fle (price r) target) results"

text \<open>The body of \<open>price_check_loop\<close>: one scheduled check.\<close>

definition price_check_loop :: "world \<Rightarrow> bot \<Rightarrow> outcome \<times> bot" where
  "price_check_loop w s =
     (if \<not> tracking_enabled (data s) then (Done, s)
      else case check_all_prices w (tracked_colors (data s)) (clock s) of
             Inl e \<Rightarrow> (Raised e, s)
           | Inr (results, t) \<Rightarrow>
               if results = [] then (Done, s\<lparr>clock := t\<rparr>)
               else let s1 = s\<lparr>clock := t, price_history := price_history s @ results\<rparr>;
                        target = target_price (data s1);
                        ds = deals results target
                    in if ds = [] then (Done, s1)
                       else (case alert_channel_id (data s1) of
                               None \<Rightarrow> (Done, s1)
                             | Some c \<Rightarrow>
                                 if c = 0 \<or> \<not> get_channel w c then (Done, s1)
                                 else (Done, foldl (\<lambda>st d. send c Everyone_ping
                                                      (send c (Price_alert d target) st)) s1 ds)))"

text \<open>
  What happens to the bot: a command from a channel, the ready event, the library running
  the loop body, time passing. A handler runs to its end before the next event; an
  exception that leaves a command handler is caught by the command framework, one that
  leaves the loop body ends the loop.
\<close>

datatype event =
    Start int
  | Stop int
  | Setprice int pyfloat
  | Check int
  | Colors int "string list"
  | Interval int int
  | Status int
  | History int
  | Ready
  | Tick
  | Elapse nat

fun step :: "world \<Rightarrow> event \<Rightarrow> bot \<Rightarrow> bot" where
  "step w (Start ch) s = snd (start_tracking ch s)"
| "step w (Stop ch) s = snd (stop_tracking ch s)"
| "step w (Setprice ch p) s = snd (set_price ch p s)"
| "step w (Check ch) s = snd (check_now w ch s)"
| "step w (Colors ch args) s = snd (set_colors ch args s)"
| "step w (Interval ch minutes) s = snd (set_interval ch minutes s)"
| "step w (Status ch) s = snd (show_status w ch s)"
| "step w (History ch) s = snd (show_history ch s)"
| "step w Ready s = snd (on_ready s)"
| "step w Tick s =
     (if loop_running s
      then (case price_check_loop w s of
              (Done, s1) \<Rightarrow> s1
            | (Raised e, s1) \<Rightarrow> s1\<lparr>loop_running := False\<rparr>)
      else s)"
| "step w (Elapse n) s = s\<lparr>clock := clock s + n\<rparr>"

fun run :: "world \<Rightarrow> event list \<Rightarrow> bot \<Rightarrow> bot" where
  "run w [] s = s"
| "run w (e # es) s = run w es (step w e s)"

section \<open>Notions of the specification\<close>

text \<open>
  "That pattern's first match in document order": the match at the least start position
  at which the pattern matches at all.
\<close>

definition first_match :: "matcher \<Rightarrow> string \<Rightarrow> string option" where
  "first_match p page =
     (case filter (\<lambda>i. match_at p (drop i page) \<noteq> None) [0..<Suc (length page)] of
        [] \<Rightarrow> None
      | i # _ \<Rightarrow> match_at p (drop i page))"

text \<open>A candidate is accepted when it is there and its value lies in the plausible range.\<close>

definition accepted :: "string option \<Rightarrow> pyfloat option" where
  "accepted candidate =
     (case candidate of
        None \<Rightarrow> None
      | Some g \<Rightarrow> (case py_float g of
                     None \<Rightarrow> None
                   | Some v \<Rightarrow> if plausible v then Some v else None))"

text \<open>The observations a message shows to its readers.\<close>

fun message_observations :: "message \<Rightarrow> observation list" where
  "message_observations (Current_prices groups best) = concat (map snd groups) @ [best]"
| "message_observations (Recent_history rs) = rs"
| "message_observations (Price_alert r target) = [r]"
| "message_observations m = []"

text \<open>Every stored and every reported observation has a plausible price.\<close>

definition all_plausible :: "bot \<Rightarrow> bool" where
  "all_plausible s =
     ((\<forall>r \<in> set (price_history s). plausible (price r)) \<and>
      (\<forall>m \<in> set (map snd (sent s)). \<forall>r \<in> set (message_observations m). plausible (price r)))"

text \<open>A retailer entry that gives a non-empty URL for each colour it lists.\<close>

definition has_urls :: "retailer_data \<Rightarrow> bool" where
  "has_urls rd = (\<forall>c \<in> set (colors rd). \<exists>u. target_url rd c = Inr (Some u) \<and> u \<noteq> [])"

section \<open>Sample inputs\<close>

text \<open>A world in which every URL answers 200 with the same page and every channel is known.\<close>

definition page_world :: "string \<Rightarrow> world" where
  "page_world page = \<lparr>fetch = (\<lambda>t u. Response 200 page), get_channel = (\<lambda>c. True)\<rparr>"

text \<open>The bot after a first start with no configuration file: the defaults, saved.\<close>

definition fresh :: bot where
  "fresh =
     \<lparr>data = default_config, config_file = Some default_config, writes = [],
      price_history = [], loop_running = False, loop_minutes = 60, sent = [], clock = 0\<rparr>"

section \<open>The first start\<close>

lemma load_config_fresh: "load_config (fresh\<lparr>config_file := None\<rparr>) = (Done, fresh)"
  by (simp add: load_config_def save_config_def fresh_def)

section \<open>Searching a page\<close>

lemma upt_Suc_length_Cons:
  "[0..<Suc (length (c # cs))] = 0 # map Suc [0..<Suc (length cs)]"
  by (metis length_Cons map_Suc_upt upt_conv_Cons zero_less_Suc)

lemma first_match_Nil: "first_match p [] = match_at p []"
  by (cases "match_at p []") (simp_all add: first_match_def)

lemma first_match_Cons:
  "first_match p (c # cs) =
     (case match_at p (c # cs) of Some g \<Rightarrow> Some g | None \<Rightarrow> first_match p cs)"
proof -
  have pos: "filter (\<lambda>i. match_at p (drop i (c # cs)) \<noteq> None) (map Suc [0..<Suc (length cs)])
      = map Suc (filter (\<lambda>i. match_at p (drop i cs) \<noteq> None) [0..<Suc (length cs)])"
    by (simp add: filter_map comp_def)
  show ?thesis
  proof (cases "match_at p (c # cs)")
    case None
    then show ?thesis
      unfolding first_match_def upt_Suc_length_Cons
      by (simp add: pos del: upt_Suc not_None_eq split: list.splits)
  next
    case (Some g)
    then show ?thesis
      unfolding first_match_def upt_Suc_length_Cons by (simp del: upt_Suc)
  qed
qed

text \<open>The scan of \<open>re.search\<close> returns the match at the least matching position.\<close>

lemma re_search_first_match: "re_search p page = first_match p page"
  by (induction page) (simp_all add: first_match_Nil first_match_Cons split: option.splits)

lemma in_cls: "(m, r) \<in> set (cls P s) \<longleftrightarrow> (\<exists>c. P c \<and> m = [c] \<and> s = c # r)"
  by (cases s) auto

lemma in_then_re:
  "(m, r) \<in> set (then_re p q s) \<longleftrightarrow>
     (\<exists>m1 r1 m2. (m1, r1) \<in> set (p s) \<and> (m2, r) \<in> set (q r1) \<and> m = m1 @ m2)"
  by (force simp: then_re_def)

lemma in_opt_re: "(m, r) \<in> set (opt_re p s) \<longleftrightarrow> (m, r) \<in> set (p s) \<or> (m = [] \<and> r = s)"
  by (auto simp: opt_re_def)

text \<open>Group 1 is three digits, or three digits, a point and two digits.\<close>

lemma price_token_shape:
  assumes "(g, r) \<in> set (price_token s)"
  shows "\<exists>a b c. is_digit a \<and> is_digit b \<and> is_digit c \<and>
           (g = [a, b, c] \<or> (\<exists>d e. is_digit d \<and> is_digit e \<and> g = [a, b, c, CHR ''.'', d, e]))"
  using assms unfolding price_token_def in_then_re in_opt_re in_cls lit_def
  by auto

lemma dot_not_digit: "\<not> is_digit CHR ''.''"
  by (simp add: is_digit_def)

lemma price_token_parses: "(g, r) \<in> set (price_token s) \<Longrightarrow> py_float g \<noteq> None"
  by (drule price_token_shape) (auto simp: py_float_def dot_not_digit)

lemma match_at_Some: "match_at p s = Some g \<Longrightarrow> \<exists>r. (g, r) \<in> set (p s)"
  by (auto simp: match_at_def split: list.splits)

lemma re_search_Some: "re_search p page = Some g \<Longrightarrow> \<exists>s r. (g, r) \<in> set (p s)"
proof (induction page)
  case Nil
  then show ?case using match_at_Some [of p "[]" g] by auto
next
  case (Cons c cs)
  then show ?case using match_at_Some [of p "c # cs" g] by (auto split: option.splits)
qed

lemma dollar_group_parses: "re_search dollar_pattern page = Some g \<Longrightarrow> py_float g \<noteq> None"
  by (auto dest!: re_search_Some simp: dollar_pattern_def dest: price_token_parses)

lemma usd_group_parses: "re_search usd_pattern page = Some g \<Longrightarrow> py_float g \<noteq> None"
  by (auto dest!: re_search_Some simp: usd_pattern_def dest: price_token_parses)

lemma try_patterns_candidates:
  "try_patterns patterns page =
     (case accepted (first_match dollar_pattern page) of
        Some v \<Rightarrow> Some v
      | None \<Rightarrow> accepted (first_match usd_pattern page))"
  using dollar_group_parses [of page] usd_group_parses [of page]
  by (auto simp: patterns_def accepted_def re_search_first_match [symmetric] split: option.splits)

section \<open>Claims about extraction\<close>

text \<open>
  C1, as the code has it. For every page, \<open>extract_price\<close> takes one candidate from each
  pattern, the pattern's first match in document order, and never a later match of the
  same pattern. The patterns are tried in priority order and the first one whose
  candidate lies in the plausible range gives the result: a dollar candidate that is out
  of range, or missing, hands over to the candidate of the USD pattern. There is no
  signal when the request fails, the status is not 200, or neither candidate is accepted.
\<close>

theorem extract_price_candidates:
  "extract_price w t u n =
     (case fetch w t u of
        Request_failed \<Rightarrow> None
      | Response status_code page \<Rightarrow>
          if status_code \<noteq> 200 then None
          else (case accepted (first_match dollar_pattern page) of
                  Some v \<Rightarrow> Some v
                | None \<Rightarrow> accepted (first_match usd_pattern page)))"
  by (simp add: extract_price_def try_patterns_candidates split: http_result.splits)

text \<open>
  C1 as stated fails: on the page \<open>$999 349 USD\<close> the first pattern matches, its first
  match 999 is out of range, and the result is the 349 of the second pattern, not "no
  signal".
\<close>

theorem extract_price_falls_through:
  "re_search dollar_pattern ''$999 349 USD'' = Some ''999''
   \<and> py_float ''999'' = Some (Finite 999)
   \<and> \<not> plausible (Finite 999)
   \<and> extract_price (page_world ''$999 349 USD'') 0 ''https://www.amazon.com/dp/B0DJCX5KQG'' ''Amazon''
       = Some (Finite 349)"
  by code_simp

text \<open>A later match of the same pattern is not tried: here the second dollar amount is plausible.\<close>

lemma extract_price_single_shot:
  "extract_price (page_world ''was $999 now $349'') 0 ''https://www.amazon.com/dp/B0DJCX5KQG'' ''Amazon''
     = None"
  by code_simp

section \<open>Claims about alert evaluation\<close>

lemma count_list_filter:
  "count_list (filter P xs) x = (if P x then count_list xs x else 0)"
  by (induction xs) auto

text \<open>
  C4. For every list of observations and every threshold, \<open>deals\<close> is a subsequence of
  its input (relative order kept), holds exactly the observations with
  \<open>price <= target\<close>, each as often as the input does, is a function of its two
  arguments alone, and evaluating it again on its own result changes nothing.
\<close>

theorem deals_exactly_at_or_below_target:
  "subseq (deals obs t) obs
   \<and> set (deals obs t) = {r \<in> set obs. fle (price r) t}
   \<and> (\<forall>r. count_list (deals obs t) r = (if fle (price r) t then count_list obs r else 0))
   \<and> deals (deals obs t) t = deals obs t"
  by (auto simp: deals_def count_list_filter)

section \<open>One sweep\<close>

text \<open>Whatever \<open>extract_price\<close> returns has passed the range test.\<close>

lemma try_patterns_plausible: "try_patterns ps page = Some p \<Longrightarrow> plausible p"
  by (induction ps) (auto split: option.splits if_splits)

lemma extract_price_plausible: "extract_price w t u n = Some p \<Longrightarrow> plausible p"
  by (auto simp: extract_price_def dest: try_patterns_plausible split: http_result.splits if_splits)

lemma for_colors_invariant:
  assumes "\<And>rd c u a. Q a \<Longrightarrow> Q (body rd c u a)"
  shows "Q acc \<Longrightarrow> for_colors body rd cs acc = Inr acc' \<Longrightarrow> Q acc'"
proof (induction cs arbitrary: acc)
  case Nil
  then show ?case by simp
next
  case (Cons c cs)
  then show ?case
    using assms by (auto split: if_splits sum.splits option.splits) blast
qed

lemma for_retailers_invariant:
  assumes "\<And>rd c u a. Q a \<Longrightarrow> Q (body rd c u a)"
  shows "Q acc \<Longrightarrow> for_retailers body rds tracked acc = Inr acc' \<Longrightarrow> Q acc'"
proof (induction rds arbitrary: acc)
  case Nil
  then show ?case by simp
next
  case (Cons rd rds)
  from Cons.prems(2) obtain a1 where a1: "for_colors body rd tracked acc = Inr a1"
    and rest: "for_retailers body rds tracked a1 = Inr acc'"
    by (auto split: sum.splits)
  have "Q a1"
    using for_colors_invariant [of Q body, OF assms Cons.prems(1) a1] .
  then show ?case using Cons.IH rest by blast
qed

lemma visit_plausible:
  "\<forall>r \<in> set (fst a). plausible (price r) \<Longrightarrow> \<forall>r \<in> set (fst (visit w rd c u a)). plausible (price r)"
  by (cases a) (auto simp: visit_def dest: extract_price_plausible split: option.splits)

lemma check_all_prices_plausible:
  assumes "check_all_prices w tracked t = Inr (results, t')"
  shows "\<forall>r \<in> set results. plausible (price r)"
proof -
  have "\<forall>r \<in> set (fst (results, t')). plausible (price r)"
    by (rule for_retailers_invariant [where Q = "\<lambda>a. \<forall>r \<in> set (fst a). plausible (price r)"
          and body = "visit w" and acc = "([], t)" and rds = retailers and tracked = tracked])
       (use assms visit_plausible in \<open>auto simp: check_all_prices_def\<close>)
  then show ?thesis by simp
qed

lemma group_add_set: "set (concat (map snd (group_add r g))) = insert r (set (concat (map snd g)))"
  by (induction r g rule: group_add.induct) auto

lemma by_retailer_set_aux:
  "set (concat (map snd (foldl (\<lambda>g r. group_add r g) g0 rs))) = set rs \<union> set (concat (map snd g0))"
proof (induction rs arbitrary: g0)
  case Nil
  show ?case by simp
next
  case (Cons r rs)
  show ?case
    unfolding foldl_Cons Cons.IH group_add_set by auto
qed

lemma by_retailer_set: "set (concat (map snd (by_retailer rs))) = set rs"
  using by_retailer_set_aux [of "[]" rs] by (simp add: by_retailer_def)

lemma lowest_in: "lowest r rs \<in> set (r # rs)"
proof -
  have "foldl (\<lambda>best x. if flt (price x) (price best) then x else best) b xs \<in> set (b # xs)"
    for b :: observation and xs
    by (induction xs arbitrary: b) (auto split: if_splits)
  then show ?thesis by (simp add: lowest_def)
qed

lemma plausible_iff: "plausible p \<longleftrightarrow> (\<exists>r. p = Finite r \<and> 200 \<le> r \<and> r \<le> 600)"
  by (cases p) (auto simp: plausible_def)

text \<open>A colour no retailer lists is skipped by every retailer.\<close>

lemma for_colors_unsupported:
  "\<forall>c \<in> set cs. c \<notin> set (colors rd) \<Longrightarrow> for_colors body rd cs acc = Inr acc"
  by (induction cs) auto

lemma for_retailers_unsupported:
  "\<forall>rd \<in> set rds. \<forall>c \<in> set cs. c \<notin> set (colors rd) \<Longrightarrow> for_retailers body rds cs acc = Inr acc"
  by (induction rds) (auto simp: for_colors_unsupported)

lemma stealth_unsupported: "\<forall>rd \<in> set retailers. ''stealth'' \<notin> set (colors rd)"
  by (simp add: retailers_def)

section \<open>Target resolution\<close>

lemma for_colors_collect_prefix:
  "for_colors collect rd cs pre =
     (case for_colors collect rd cs [] of Inl e \<Rightarrow> Inl e | Inr ts \<Rightarrow> Inr (pre @ ts))"
proof (induction cs arbitrary: pre)
  case Nil
  show ?case by simp
next
  case (Cons c cs)
  show ?case
    using Cons.IH [of pre] Cons.IH [of "pre @ [(rd, c, u)]" for u] Cons.IH [of "[(rd, c, u)]" for u]
    by (auto simp: collect_def split: sum.splits option.splits)
qed

lemma for_colors_targets:
  "for_colors body rd cs acc =
     (case for_colors collect rd cs [] of
        Inl e \<Rightarrow> Inl e
      | Inr ts \<Rightarrow> Inr (fold (\<lambda>(rd, c, u). body rd c u) ts acc))"
proof (induction cs arbitrary: acc)
  case Nil
  show ?case by simp
next
  case (Cons c cs)
  have pre: "for_colors collect rd cs [(rd, c, u)] =
     (case for_colors collect rd cs [] of Inl e \<Rightarrow> Inl e | Inr ts \<Rightarrow> Inr ((rd, c, u) # ts))" for u
    using for_colors_collect_prefix [of rd cs "[(rd, c, u)]"] by (simp split: sum.splits)
  show ?case
    using Cons.IH [of acc] Cons.IH [of "body rd c u acc" for u]
    by (auto simp: collect_def [of rd c _ "[]"] pre split: sum.splits option.splits)
qed

lemma for_retailers_collect_prefix:
  "for_retailers collect rds tracked pre =
     (case for_retailers collect rds tracked [] of Inl e \<Rightarrow> Inl e | Inr ts \<Rightarrow> Inr (pre @ ts))"
proof (induction rds arbitrary: pre)
  case Nil
  show ?case by simp
next
  case (Cons rd rds)
  show ?case
  proof (cases "for_colors collect rd tracked []")
    case (Inl e)
    then show ?thesis using for_colors_collect_prefix [of rd tracked pre] by simp
  next
    case (Inr us)
    then have "for_colors collect rd tracked pre = Inr (pre @ us)"
      using for_colors_collect_prefix [of rd tracked pre] by simp
    then show ?thesis
      using Inr Cons.IH [of "pre @ us"] Cons.IH [of us]
      by (auto split: sum.splits)
  qed
qed

text \<open>The loops run their body on the resolved targets, one after the other.\<close>

lemma for_retailers_targets:
  "for_retailers body rds tracked acc =
     (case for_retailers collect rds tracked [] of
        Inl e \<Rightarrow> Inl e
      | Inr ts \<Rightarrow> Inr (fold (\<lambda>(rd, c, u). body rd c u) ts acc))"
proof (induction rds arbitrary: acc)
  case Nil
  show ?case by simp
next
  case (Cons rd rds)
  show ?case
  proof (cases "for_colors collect rd tracked []")
    case (Inl e)
    then show ?thesis using for_colors_targets [of body rd tracked acc] by simp
  next
    case (Inr us)
    then have b: "for_colors body rd tracked acc = Inr (fold (\<lambda>(rd, c, u). body rd c u) us acc)"
      using for_colors_targets [of body rd tracked acc] by simp
    show ?thesis
      using Inr b Cons.IH [of "fold (\<lambda>(rd, c, u). body rd c u) us acc"]
        for_retailers_collect_prefix [of rds tracked us]
      by (auto split: sum.splits)
  qed
qed

lemma check_all_prices_targets:
  "check_all_prices w tracked t =
     (case resolve_targets tracked of
        Inl e \<Rightarrow> Inl e
      | Inr ts \<Rightarrow> Inr (fold (\<lambda>(rd, c, u). visit w rd c u) ts ([], t)))"
  unfolding check_all_prices_def resolve_targets_def by (rule for_retailers_targets)

lemma for_colors_listed:
  assumes "has_urls rd"
  shows "\<exists>us. for_colors collect rd cs [] = Inr us
           \<and> map (\<lambda>(rd, c, u). (key rd, c)) us = map (Pair (key rd)) (filter (\<lambda>c. c \<in> set (colors rd)) cs)"
proof (induction cs)
  case Nil
  show ?case by simp
next
  case (Cons c cs)
  then obtain us where us: "for_colors collect rd cs [] = Inr us"
      "map (\<lambda>(rd, c, u). (key rd, c)) us = map (Pair (key rd)) (filter (\<lambda>c. c \<in> set (colors rd)) cs)"
    by blast
  show ?case
  proof (cases "c \<in> set (colors rd)")
    case False
    then show ?thesis using us by simp
  next
    case True
    then obtain u where u: "target_url rd c = Inr (Some u)" "u \<noteq> []"
      using assms by (auto simp: has_urls_def)
    have "for_colors collect rd cs [(rd, c, u)] = Inr ((rd, c, u) # us)"
      using for_colors_collect_prefix [of rd cs "[(rd, c, u)]"] us(1) by simp
    then show ?thesis
      using True u us(2) by (simp add: collect_def [of rd c u "[]"])
  qed
qed

lemma for_retailers_listed:
  assumes "\<forall>rd \<in> set rds. has_urls rd"
  shows "\<exists>ts. for_retailers collect rds tracked [] = Inr ts
           \<and> map (\<lambda>(rd, c, u). (key rd, c)) ts =
               concat (map (\<lambda>rd. map (Pair (key rd)) (filter (\<lambda>c. c \<in> set (colors rd)) tracked)) rds)"
  using assms
proof (induction rds)
  case Nil
  show ?case by simp
next
  case (Cons rd rds)
  obtain us where us: "for_colors collect rd tracked [] = Inr us"
      "map (\<lambda>(rd, c, u). (key rd, c)) us = map (Pair (key rd)) (filter (\<lambda>c. c \<in> set (colors rd)) tracked)"
    using for_colors_listed [of rd tracked] Cons.prems by auto
  obtain ts where ts: "for_retailers collect rds tracked [] = Inr ts"
      "map (\<lambda>(rd, c, u). (key rd, c)) ts =
               concat (map (\<lambda>rd. map (Pair (key rd)) (filter (\<lambda>c. c \<in> set (colors rd)) tracked)) rds)"
    using Cons.IH Cons.prems by auto
  have "for_retailers collect rds tracked us = Inr (us @ ts)"
    using for_retailers_collect_prefix [of rds tracked us] ts(1) by simp
  then show ?case using us ts(2) by simp
qed

lemma retailers_have_urls: "\<forall>rd \<in> set retailers. has_urls rd"
  by (simp add: retailers_def has_urls_def target_url_def)

text \<open>A sweep never raises: every entry of the table has the key the loops read.\<close>

lemma check_all_prices_returns: "\<exists>results t'. check_all_prices w tracked t = Inr (results, t')"
proof -
  obtain ts where "resolve_targets tracked = Inr ts"
    using for_retailers_listed [OF retailers_have_urls, of tracked]
    by (auto simp: resolve_targets_def)
  then have "check_all_prices w tracked t = Inr (fold (\<lambda>(rd, c, u). visit w rd c u) ts ([], t))"
    by (simp add: check_all_prices_targets)
  then show ?thesis by (metis surj_pair)
qed

text \<open>
  C7, as the code has it. Target resolution is a function of the tracked colours alone (no
  world, no time, no state: the same input gives the same sequence), it never raises, and
  its order is: the retailers in registration order, and within each retailer the tracked
  colours in the order of the input, duplicates kept, less the colours the retailer does
  not list.
\<close>

theorem resolve_targets_order:
  "\<exists>ts. resolve_targets tracked = Inr ts
     \<and> map (\<lambda>(rd, c, u). (key rd, c)) ts =
         concat (map (\<lambda>rd. map (Pair (key rd)) (filter (\<lambda>c. c \<in> set (colors rd)) tracked)) retailers)"
  using for_retailers_listed [OF retailers_have_urls, of tracked]
  by (simp add: resolve_targets_def)

text \<open>
  C7 as stated fails: for the input gold, silver the targets of Amazon come gold first,
  then silver, while Amazon registers silver before gold.
\<close>

theorem resolve_targets_input_order:
  "map_sum id (map (\<lambda>(rd, c, u). (key rd, c))) (resolve_targets [''gold'', ''silver''])
     = Inr [(''amazon'', ''gold''), (''amazon'', ''silver''), (''oura'', ''gold''), (''oura'', ''silver'')]
   \<and> key (hd retailers) = ''amazon''
   \<and> colors (hd retailers) = [''silver'', ''black'', ''gold'']"
  by code_simp

text \<open>
  C10. \<open>set_colors\<close> takes \<open>stealth\<close> for a valid colour and goes on to store it, no
  retailer lists \<open>stealth\<close>, and for every tracked list that holds nothing but
  \<open>stealth\<close> no target is resolved, a sweep returns no observation, and a scheduled
  check leaves the bot as it was.
\<close>

theorem stealth_resolves_no_target:
  "''stealth'' \<in> set valid_colors
   \<and> set_colors ch [''stealth''] s =
       and_then (config_set (Tracked_colors [''stealth'']) s)
         (\<lambda>s1. (Done, send ch (Colors_updated [''stealth'']) s1))
   \<and> (\<forall>rd \<in> set retailers. ''stealth'' \<notin> set (colors rd))
   \<and> (set tracked = {''stealth''} \<longrightarrow>
        resolve_targets tracked = Inr [] \<and> check_all_prices w tracked t = Inr ([], t))
   \<and> (set (tracked_colors (data s)) = {''stealth''} \<longrightarrow> price_check_loop w s = (Done, s))"
proof -
  have low: "lower ''stealth'' = ''stealth''" by code_simp
  have a: "''stealth'' \<in> set valid_colors" by (simp add: valid_colors_def)
  have b: "set_colors ch [''stealth''] s =
       and_then (config_set (Tracked_colors [''stealth'']) s)
         (\<lambda>s1. (Done, send ch (Colors_updated [''stealth'']) s1))"
    using a by (simp add: set_colors_def low Let_def)
  have c: "resolve_targets cs = Inr [] \<and> check_all_prices w cs t' = Inr ([], t')"
    if "set cs = {''stealth''}" for cs t'
    using that stealth_unsupported
    by (simp add: resolve_targets_def check_all_prices_def for_retailers_unsupported)
  have d: "price_check_loop w s = (Done, s)" if "set (tracked_colors (data s)) = {''stealth''}"
    using c [OF that, of "clock s"] by (simp add: price_check_loop_def)
  show ?thesis using a b c d stealth_unsupported by blast
qed

text \<open>The theorem at the tracked list that holds \<open>stealth\<close> once.\<close>

theorem stealth_resolves_no_target_witness:
  "set [''stealth''] = {''stealth''}
   \<and> resolve_targets [''stealth''] = Inr []
   \<and> check_all_prices (page_world ''$349'') [''stealth''] 0 = Inr ([], 0)
   \<and> price_check_loop (page_world ''$349'')
        (fresh\<lparr>data := (data fresh)\<lparr>tracked_colors := [''stealth''], tracking_enabled := True\<rparr>\<rparr>)
       = (Done, fresh\<lparr>data := (data fresh)\<lparr>tracked_colors := [''stealth''], tracking_enabled := True\<rparr>\<rparr>)"
  using stealth_resolves_no_target
    [of 7 "fresh\<lparr>data := (data fresh)\<lparr>tracked_colors := [''stealth''], tracking_enabled := True\<rparr>\<rparr>"
        "[''stealth'']" "page_world ''$349''" 0]
  by simp

section \<open>Plausible prices, stored and reported\<close>

lemma send_alerts:
  "foldl (\<lambda>st d. send c Everyone_ping (send c (Price_alert d target) st)) s ds =
     s\<lparr>sent := sent s @ concat (map (\<lambda>d. [(c, Price_alert d target), (c, Everyone_ping)]) ds)\<rparr>"
  by (induction ds arbitrary: s) (simp_all add: send_def)

lemma all_plausible_send:
  "all_plausible (send ch m s) \<longleftrightarrow>
     all_plausible s \<and> (\<forall>r \<in> set (message_observations m). plausible (price r))"
  by (auto simp: all_plausible_def send_def)

lemma all_plausible_config_set: "all_plausible (snd (config_set kv s)) = all_plausible s"
  by (auto simp: config_set_def save_config_def all_plausible_def split: list.splits)

lemma all_plausible_and_then:
  assumes "all_plausible (snd x)" and "\<And>s. all_plausible s \<Longrightarrow> all_plausible (snd (f s))"
  shows "all_plausible (snd (and_then x f))"
proof (cases x)
  case (Pair out s)
  then show ?thesis using assms by (cases out) auto
qed

lemma all_plausible_loop_start: "all_plausible (loop_start s) = all_plausible s"
  by (simp add: loop_start_def before_price_check_def all_plausible_def)

lemma all_plausible_loop_restart: "all_plausible (loop_restart s) = all_plausible s"
  by (simp add: loop_restart_def all_plausible_loop_start)

lemma start_tracking_plausible: "all_plausible s \<Longrightarrow> all_plausible (snd (start_tracking ch s))"
  unfolding start_tracking_def
  by (auto intro!: all_plausible_and_then
           simp: all_plausible_send all_plausible_config_set all_plausible_loop_start Let_def)

lemma stop_tracking_plausible: "all_plausible s \<Longrightarrow> all_plausible (snd (stop_tracking ch s))"
  unfolding stop_tracking_def
  by (auto intro!: all_plausible_and_then simp: all_plausible_send all_plausible_config_set)

lemma set_price_plausible: "all_plausible s \<Longrightarrow> all_plausible (snd (set_price ch p s))"
  unfolding set_price_def
  by (auto intro!: all_plausible_and_then simp: all_plausible_send all_plausible_config_set)

lemma set_colors_plausible: "all_plausible s \<Longrightarrow> all_plausible (snd (set_colors ch args s))"
  unfolding set_colors_def
  by (auto intro!: all_plausible_and_then simp: all_plausible_send all_plausible_config_set Let_def)

lemma set_interval_plausible: "all_plausible s \<Longrightarrow> all_plausible (snd (set_interval ch n s))"
  unfolding set_interval_def
  by (auto intro!: all_plausible_and_then
           simp: all_plausible_send all_plausible_config_set all_plausible_loop_restart Let_def)

lemma show_status_plausible: "all_plausible s \<Longrightarrow> all_plausible (snd (show_status w ch s))"
  by (simp add: show_status_def all_plausible_send)

lemma show_history_plausible: "all_plausible s \<Longrightarrow> all_plausible (snd (show_history ch s))"
  by (auto simp: show_history_def send_def all_plausible_def dest: in_set_dropD)

lemma on_ready_plausible: "all_plausible s \<Longrightarrow> all_plausible (snd (on_ready s))"
  by (simp add: on_ready_def all_plausible_loop_start)

lemma all_plausible_clock: "all_plausible (s\<lparr>clock := t\<rparr>) = all_plausible s"
  by (simp add: all_plausible_def)

lemma check_now_plausible:
  assumes "all_plausible s"
  shows "all_plausible (snd (check_now w ch s))"
proof (cases "check_all_prices w (tracked_colors (data s)) (clock s)")
  case (Inl e)
  then show ?thesis
    using assms by (simp add: check_now_def send_def all_plausible_send [unfolded send_def])
next
  case (Inr res)
  obtain results t where res: "res = (results, t)" by (cases res)
  have ok: "\<forall>r \<in> set results. plausible (price r)"
    using check_all_prices_plausible Inr res by blast
  show ?thesis
  proof (cases results)
    case Nil
    then show ?thesis
      using assms Inr res
      by (simp add: check_now_def send_def all_plausible_def)
  next
    case (Cons r rs)
    have "lowest r rs \<in> set results" using lowest_in [of r rs] Cons by simp
    then have "plausible (price (lowest r rs))" using ok by blast
    moreover have "\<forall>x \<in> set (concat (map snd (by_retailer results))). plausible (price x)"
      using ok by (simp only: by_retailer_set)
    ultimately show ?thesis
      using assms Inr res Cons
      by (simp add: check_now_def send_def all_plausible_def)
  qed
qed

lemma price_check_loop_plausible:
  assumes "all_plausible s"
  shows "all_plausible (snd (price_check_loop w s))"
proof (cases "check_all_prices w (tracked_colors (data s)) (clock s)")
  case (Inl e)
  then show ?thesis using assms by (simp add: price_check_loop_def)
next
  case (Inr res)
  obtain results t where res: "res = (results, t)" by (cases res)
  have ok: "\<forall>r \<in> set results. plausible (price r)"
    using check_all_prices_plausible Inr res by blast
  then have "\<forall>r \<in> set (deals results target). plausible (price r)" for target
    by (simp add: deals_def)
  then show ?thesis
    using assms Inr res ok
    by (auto simp: price_check_loop_def send_alerts all_plausible_def Let_def split: option.splits)
qed

lemma step_plausible: "all_plausible s \<Longrightarrow> all_plausible (step w e s)"
proof (cases e)
  case Tick
  assume "all_plausible s"
  then show ?thesis
    using price_check_loop_plausible [of s w] Tick
    by (auto simp: all_plausible_def split: prod.splits outcome.splits)
qed (simp_all add: start_tracking_plausible stop_tracking_plausible set_price_plausible
       check_now_plausible set_colors_plausible set_interval_plausible show_status_plausible
       show_history_plausible on_ready_plausible all_plausible_clock)

lemma run_plausible: "all_plausible s \<Longrightarrow> all_plausible (run w es s)"
  by (induction es arbitrary: s) (simp_all add: step_plausible)

text \<open>
  C6. What \<open>extract_price\<close> returns is nothing or a price in [200, 600], both bounds
  included; every sweep returns, and every observation it returns, the ones alerts are
  evaluated on, has such a price; and when every stored observation and every observation shown in a message has
  such a price, this is still so after any sequence of commands, scheduled checks and
  other events, in any world. The history and the messages of a bot that starts are empty.
\<close>

theorem stored_and_reported_prices_plausible:
  assumes "all_plausible s"
  shows "all_plausible (run w es s)
    \<and> (extract_price w t u n = None \<or> (\<exists>r. extract_price w t u n = Some (Finite r) \<and> 200 \<le> r \<and> r \<le> 600))
    \<and> (\<exists>results t'. check_all_prices w tracked t = Inr (results, t')
          \<and> list_all (\<lambda>r. plausible (price r)) results)"
proof -
  have sweep: "\<exists>results t'. check_all_prices w tracked t = Inr (results, t')
          \<and> list_all (\<lambda>r. plausible (price r)) results"
    using check_all_prices_returns [of w tracked t] check_all_prices_plausible [of w tracked t]
    by (auto simp: list_all_iff)
  have "extract_price w t u n = None \<or> (\<exists>r. extract_price w t u n = Some (Finite r) \<and> 200 \<le> r \<and> r \<le> 600)"
  proof (cases "extract_price w t u n")
    case None
    then show ?thesis by simp
  next
    case (Some p)
    then show ?thesis using extract_price_plausible [OF Some] by (auto simp: plausible_iff)
  qed
  then show ?thesis using run_plausible [OF assms] sweep by blast
qed

text \<open>
  The theorem at the fresh bot: a start, a scheduled check that stores seven
  observations, a manual check and a look at the history.
\<close>

theorem stored_and_reported_prices_plausible_witness:
  "all_plausible fresh
   \<and> length (price_history (run (page_world ''$349 or 999 USD'') [Start 7, Tick, Check 7, History 7] fresh)) = 7
   \<and> all_plausible (run (page_world ''$349 or 999 USD'') [Start 7, Tick, Check 7, History 7] fresh)"
proof -
  have h: "all_plausible fresh" by (simp add: all_plausible_def fresh_def)
  have n: "length (price_history (run (page_world ''$349 or 999 USD'') [Start 7, Tick, Check 7, History 7] fresh)) = 7"
    by code_simp
  show ?thesis
    using stored_and_reported_prices_plausible [OF h, of "page_world ''$349 or 999 USD''" "[Start 7, Tick, Check 7, History 7]"] h n
    by blast
qed

section \<open>The manual check\<close>

text \<open>A manual check never touches the history and sends no alert.\<close>

lemma check_now_history: "price_history (snd (check_now w ch s)) = price_history s"
  by (auto simp: check_now_def send_def Let_def split: sum.splits list.splits)

lemma check_now_sends_no_alert:
  "set (sent (snd (check_now w ch s))) - set (sent s)
     \<subseteq> {(ch, Checking_prices), (ch, No_prices_fetched)} \<union> {(ch, Current_prices g b) | g b. True}"
  by (auto simp: check_now_def send_def Let_def split: sum.splits list.splits)

lemma price_check_loop_history:
  assumes "tracking_enabled (data s)"
    and "check_all_prices w (tracked_colors (data s)) (clock s) = Inr (results, t)"
  shows "price_history (snd (price_check_loop w s)) = price_history s @ results"
  using assms
  by (auto simp: price_check_loop_def send_alerts Let_def split: option.splits)

text \<open>
  C3 at the fresh bot, every page showing \<open>$349\<close>: the manual check finds seven
  observations and reports them (with the best one, eight in its message), and the history
  is still empty afterwards; the scheduled check of the same sweep stores all seven.
\<close>

theorem check_now_skips_history:
  "fst (check_now (page_world ''$349'') 7 fresh) = Done
   \<and> length (message_observations (snd (last (sent (snd (check_now (page_world ''$349'') 7 fresh)))))) = 8
   \<and> price_history (snd (check_now (page_world ''$349'') 7 fresh)) = []
   \<and> length (price_history (snd (price_check_loop (page_world ''$349'')
               (fresh\<lparr>data := (data fresh)\<lparr>tracking_enabled := True\<rparr>\<rparr>)))) = 7"
  by code_simp

section \<open>Configuration\<close>

lemma config_set_raises:
  "writes s = False # oks \<Longrightarrow>
     config_set kv s = (Raised OSError, s\<lparr>data := assign kv (data s), writes := oks\<rparr>)"
  by (simp add: config_set_def save_config_def)




text \<open>
  The same through the commands: on a valid input each handler ends with the exception,
  the new value in memory, and sends nothing.
\<close>

lemma set_price_failed_save:
  "writes s = False # oks \<Longrightarrow> \<not> (flt p (Finite 100) \<or> fgt p (Finite 600)) \<Longrightarrow>
     set_price ch p s = (Raised OSError, s\<lparr>data := (data s)\<lparr>target_price := p\<rparr>, writes := oks\<rparr>)"
  by (simp add: set_price_def config_set_raises)

lemma set_interval_failed_save:
  "writes s = False # oks \<Longrightarrow> \<not> (minutes < 10 \<or> minutes > 1440) \<Longrightarrow>
     set_interval ch minutes s
       = (Raised OSError, s\<lparr>data := (data s)\<lparr>check_interval := minutes\<rparr>, writes := oks\<rparr>)"
  by (simp add: set_interval_def config_set_raises)

lemma set_colors_failed_save:
  "writes s = False # oks \<Longrightarrow> args \<noteq> [] \<Longrightarrow> \<forall>c \<in> set args. lower c \<in> set valid_colors \<Longrightarrow>
     set_colors ch args s
       = (Raised OSError, s\<lparr>data := (data s)\<lparr>tracked_colors := map lower args\<rparr>, writes := oks\<rparr>)"
  by (simp add: set_colors_def config_set_raises Let_def filter_empty_conv)

lemma stop_tracking_failed_save:
  "writes s = False # oks \<Longrightarrow> tracking_enabled (data s) \<Longrightarrow>
     stop_tracking ch s
       = (Raised OSError, s\<lparr>data := (data s)\<lparr>tracking_enabled := False\<rparr>, writes := oks\<rparr>)"
  by (simp add: stop_tracking_def config_set_raises)

lemma start_tracking_failed_save:
  "writes s = False # oks \<Longrightarrow> \<not> tracking_enabled (data s) \<Longrightarrow>
     start_tracking ch s
       = (Raised OSError, s\<lparr>data := (data s)\<lparr>tracking_enabled := True\<rparr>, writes := oks\<rparr>)"
  by (simp add: start_tracking_def config_set_raises)

lemma fle_flt: "p \<noteq> NaN \<Longrightarrow> \<not> (fle (Finite a) p \<and> fle p (Finite b)) \<Longrightarrow> flt p (Finite a) \<or> fgt p (Finite b)"
  by (cases p) (auto simp: fgt_def)

text \<open>
  C8, as the code has it. A threshold that is a number or an infinity and lies outside
  [100, 600], an interval outside [10, 1440], and a list of colours one of which, put in
  lower case, is not among the valid colours, are each answered with their own message,
  and nothing of the state changes but the list of messages sent: neither the
  configuration in memory nor the file.
\<close>

theorem invalid_input_rejected:
  "(p \<noteq> NaN \<and> \<not> (fle (Finite 100) p \<and> fle p (Finite 600)) \<longrightarrow>
      set_price ch p s = (Done, s\<lparr>sent := sent s @ [(ch, Invalid_price)]\<rparr>))
   \<and> (\<not> (10 \<le> minutes \<and> minutes \<le> 1440) \<longrightarrow>
      set_interval ch minutes s = (Done, s\<lparr>sent := sent s @ [(ch, Invalid_interval)]\<rparr>))
   \<and> ((\<exists>c \<in> set args. lower c \<notin> set valid_colors) \<longrightarrow>
      set_colors ch args s =
        (Done, s\<lparr>sent := sent s @
           [(ch, Invalid_colors (filter (\<lambda>c. c \<notin> set valid_colors) (map lower args)))]\<rparr>))"
proof -
  have a: "set_price ch p s = (Done, s\<lparr>sent := sent s @ [(ch, Invalid_price)]\<rparr>)"
    if "p \<noteq> NaN" "\<not> (fle (Finite 100) p \<and> fle p (Finite 600))"
    using fle_flt [OF that] by (simp add: set_price_def send_def)
  have b: "set_interval ch minutes s = (Done, s\<lparr>sent := sent s @ [(ch, Invalid_interval)]\<rparr>)"
    if "\<not> (10 \<le> minutes \<and> minutes \<le> 1440)"
    using that by (auto simp: set_interval_def send_def)
  have c: "set_colors ch args s =
        (Done, s\<lparr>sent := sent s @
           [(ch, Invalid_colors (filter (\<lambda>c. c \<notin> set valid_colors) (map lower args)))]\<rparr>)"
    if "\<exists>c \<in> set args. lower c \<notin> set valid_colors"
  proof -
    have "filter (\<lambda>c. c \<notin> set valid_colors) (map lower args) \<noteq> []"
      using that by (auto simp: filter_empty_conv)
    then show ?thesis by (simp add: set_colors_def send_def Let_def)
  qed
  show ?thesis using a b c by blast
qed

text \<open>The theorem at the fresh bot: a threshold of 50, an interval of 5, the colour Pink.\<close>

theorem invalid_input_rejected_witness:
  "set_price 7 (Finite 50) fresh = (Done, fresh\<lparr>sent := [(7, Invalid_price)]\<rparr>)
   \<and> set_interval 7 5 fresh = (Done, fresh\<lparr>sent := [(7, Invalid_interval)]\<rparr>)
   \<and> set_colors 7 [''silver'', ''Pink''] fresh = (Done, fresh\<lparr>sent := [(7, Invalid_colors [''pink''])]\<rparr>)"
proof -
  have low1: "lower ''silver'' = ''silver''" by code_simp
  have low2: "lower ''Pink'' = ''pink''" by code_simp
  have h1: "Finite 50 \<noteq> NaN \<and> \<not> (fle (Finite 100) (Finite 50) \<and> fle (Finite 50) (Finite 600))"
    by simp
  have h2: "\<not> (10 \<le> (5::int) \<and> (5::int) \<le> 1440)" by simp
  have h3: "\<exists>c \<in> set [''silver'', ''Pink'']. lower c \<notin> set valid_colors"
    by (simp add: low1 low2 valid_colors_def)
  have empty: "sent fresh = []" by (simp add: fresh_def)
  have inv: "filter (\<lambda>c. c \<notin> set valid_colors) (map lower [''silver'', ''Pink'']) = [''pink'']"
    by (simp add: low1 low2 valid_colors_def)
  show ?thesis
    using invalid_input_rejected [of "Finite 50" 7 fresh 5 "[''silver'', ''Pink'']"] h1 h2 h3
    unfolding inv empty by simp
qed

text \<open>
  C8 as stated fails: \<open>Silver\<close> is not in the enumeration, yet the command is accepted
  and the tracked colours change, in memory and in the file.
\<close>

theorem set_colors_accepts_uppercase:
  "''Silver'' \<notin> set valid_colors
   \<and> fst (set_colors 7 [''Silver''] fresh) = Done
   \<and> tracked_colors (data fresh) = [''silver'', ''black'', ''gold'']
   \<and> tracked_colors (data (snd (set_colors 7 [''Silver''] fresh))) = [''silver'']
   \<and> config_file (snd (set_colors 7 [''Silver''] fresh)) = Some (data (snd (set_colors 7 [''Silver''] fresh)))"
  by code_simp

text \<open>NaN is neither below 100 nor above 600 and is stored as the threshold.\<close>

lemma set_price_accepts_nan:
  "set_price 7 NaN fresh
     = (Done, fresh\<lparr>data := (data fresh)\<lparr>target_price := NaN\<rparr>,
                     config_file := Some ((data fresh)\<lparr>target_price := NaN\<rparr>),
                     sent := [(7, Target_price_updated NaN)]\<rparr>)"
  by (simp add: set_price_def fgt_def config_set_def save_config_def fresh_def send_def)





text \<open>
  While no write fails, the file holds what the memory holds after every event.
\<close>

lemma config_set_saves:
  "writes s = [] \<Longrightarrow>
     config_set kv s = (Done, s\<lparr>data := assign kv (data s), config_file := Some (assign kv (data s))\<rparr>)"
  by (simp add: config_set_def save_config_def)

lemma step_in_sync:
  assumes "writes s = []" and "config_file s = Some (data s)"
  shows "writes (step w e s) = [] \<and> config_file (step w e s) = Some (data (step w e s))"
proof (cases e)
  case (Start ch)
  then show ?thesis
    using assms
    by (simp add: start_tracking_def config_set_saves send_def loop_start_def
          before_price_check_def Let_def)
next
  case (Stop ch)
  then show ?thesis using assms by (simp add: stop_tracking_def config_set_saves send_def)
next
  case (Setprice ch p)
  then show ?thesis using assms by (simp add: set_price_def config_set_saves send_def)
next
  case (Check ch)
  then show ?thesis
    using assms by (auto simp: check_now_def send_def Let_def split: sum.splits list.splits)
next
  case (Colors ch args)
  then show ?thesis using assms by (simp add: set_colors_def config_set_saves send_def Let_def)
next
  case (Interval ch n)
  then show ?thesis
    using assms
    by (simp add: set_interval_def config_set_saves send_def loop_restart_def loop_start_def
          before_price_check_def Let_def)
next
  case (Status ch)
  then show ?thesis using assms by (simp add: show_status_def send_def)
next
  case (History ch)
  then show ?thesis using assms by (simp add: show_history_def send_def)
next
  case Ready
  then show ?thesis using assms by (simp add: on_ready_def loop_start_def before_price_check_def)
next
  case Tick
  then show ?thesis
    using assms
    by (auto simp: price_check_loop_def send_alerts Let_def split: sum.splits option.splits)
next
  case (Elapse n)
  then show ?thesis using assms by simp
qed

lemma run_in_sync:
  "writes s = [] \<Longrightarrow> config_file s = Some (data s) \<Longrightarrow>
     writes (run w es s) = [] \<and> config_file (run w es s) = Some (data (run w es s))"
  by (induction es arbitrary: s) (simp_all add: step_in_sync)



end
